theory Spec2Isabelle
  imports Main
begin

section \<open>The rating system and the data model of the source\<close>

text \<open>
  The source is one file: the constants of the rating system, the types
  \<open>playerT\<close>, \<open>moveT\<close> and \<open>stateT\<close>, and the two mutually recursive search
  functions \<open>FindBestMove\<close> and \<open>EvaluatePosition\<close>.  The functions that know the game
  (\<open>GenerateMoveList\<close>, \<open>MakeMove\<close>, \<open>RetractMove\<close>, \<open>GameIsOver\<close>,
  \<open>EvaluateStaticPosition\<close>) are only declared there.

  Ratings and depths are C++ \<open>int\<close>s, modelled as unbounded integers.  Through
  \<open>EvaluatePosition\<close> the depth is incremented only below \<open>MAX_DEPTH\<close>, and on a game
  that meets the contract below a negated rating lies between -1001 and 1001.  The two
  computations C++ leaves undefined, \<open>depth + 1\<close> in a direct call of \<open>FindBestMove\<close> at
  the largest \<open>int\<close> and the negation of the smallest \<open>int\<close> coming from a static
  evaluator, are outside the model.
\<close>

definition WINNING_POSITION :: int where
  "WINNING_POSITION = 1000"

definition NEUTRAL_POSITION :: int where
  "NEUTRAL_POSITION = 0"

definition LOSING_POSITION :: int where
  "LOSING_POSITION = - WINNING_POSITION"

definition MAX_DEPTH :: int where
  "MAX_DEPTH = 10000"

datatype playerT = Human | Computer

type_synonym moveT = int

record stateT =
  board :: "char list"
  whoseTurn :: playerT
  turnsTaken :: int

definition FIRST_PLAYER :: playerT where
  "FIRST_PLAYER = Computer"

text \<open>
  The game-specific functions the search calls.  Their bodies are not part of the source
  file, so the search is modelled over a record of them.  \<open>MakeMove\<close> and \<open>RetractMove\<close>
  take the state by reference in the source and return the updated state here;
  \<open>GenerateMoveList\<close> fills a vector passed by reference and returns the list here.
\<close>

record ('s, 'm) adapter =
  GenerateMoveList :: "'s \<Rightarrow> 'm list"
  MakeMove :: "'s \<Rightarrow> 'm \<Rightarrow> 's"
  RetractMove :: "'s \<Rightarrow> 'm \<Rightarrow> 's"
  GameIsOver :: "'s \<Rightarrow> bool"
  EvaluateStaticPosition :: "'s \<Rightarrow> int"

section \<open>The search: FindBestMove and EvaluatePosition\<close>

text \<open>
  \<open>FindBestMove_loop\<close> is the \<open>for\<close> loop of \<open>FindBestMove\<close>, as a recursion over the part
  of \<open>moveList\<close> not yet visited.  It carries the local variables of the function: the
  working copy \<open>state\<close> (the parameter is passed by value), \<open>bestMove\<close> (\<open>None\<close> while the
  variable is uninitialised) and \<open>minRating\<close>.  It returns their final values and the
  strings written to \<open>std::cout\<close> during the loop.

  \<open>EvaluatePosition\<close> returns the rating and the strings written; \<open>FindBestMove\<close> returns
  the move, the value stored in the reference parameter \<open>rating\<close>, and the strings written.
\<close>

function FindBestMove_loop ::
    "('s, 'm) adapter \<Rightarrow> 'm list \<Rightarrow> 's \<Rightarrow> int \<Rightarrow> 'm option \<Rightarrow> int
       \<Rightarrow> 'm option \<times> int \<times> 's \<times> string list"
  and EvaluatePosition :: "('s, 'm) adapter \<Rightarrow> 's \<Rightarrow> int \<Rightarrow> int \<times> string list"
  and FindBestMove :: "('s, 'm) adapter \<Rightarrow> 's \<Rightarrow> int \<Rightarrow> 'm option \<times> int \<times> string list"
where
  "FindBestMove_loop A [] state depth bestMove minRating = (bestMove, minRating, state, [])"
| "FindBestMove_loop A (move # rest) state depth bestMove minRating =
     (if minRating = LOSING_POSITION then (bestMove, minRating, state, [])
      else
        let state1 = MakeMove A state move;
            evaluated = EvaluatePosition A state1 (depth + 1);
            curRating = fst evaluated;
            best = (if curRating < minRating then (Some move, curRating)
                    else (bestMove, minRating));
            state2 = RetractMove A state1 move;
            looped = FindBestMove_loop A rest state2 depth (fst best) (snd best)
        in (fst looped, fst (snd looped), fst (snd (snd looped)),
            snd evaluated @ snd (snd (snd looped))))"
| "EvaluatePosition A state depth =
     (if GameIsOver A state \<or> depth \<ge> MAX_DEPTH then (EvaluateStaticPosition A state, [])
      else
        let found = FindBestMove A state depth
        in (fst (snd found), snd (snd found)))"
| "FindBestMove A state depth =
     (let moveList = GenerateMoveList A state;
          nMoves = length moveList;
          said = (if nMoves = 0 then [''No moves available''] else []);
          looped = FindBestMove_loop A moveList state depth None (WINNING_POSITION + 1)
      in (fst looped, - fst (snd looped), said @ snd (snd (snd looped))))"
  by pat_completeness auto

termination
  apply (relation "(\<lambda>x. case x of
        Inl (A, ms, s, d, b, r) \<Rightarrow> 3 * nat (MAX_DEPTH - (d + 1)) + 1
      | Inr (Inl (A, s, d)) \<Rightarrow> 3 * nat (MAX_DEPTH - d)
      | Inr (Inr (A, s, d)) \<Rightarrow> 3 * nat (MAX_DEPTH - (d + 1)) + 2)
     <*mlex*> measure (\<lambda>x. case x of Inl (A, ms, s, d, b, r) \<Rightarrow> length ms | _ \<Rightarrow> 0)")
      apply (auto simp: wf_mlex mlex_prod_def MAX_DEPTH_def)
  done

declare EvaluatePosition.simps [simp del]

declare FindBestMove.simps [simp del]

section \<open>The tic-tac-toe functions behind the search\<close>

text \<open>
  The board is the 3 by 3 \<open>Grid<char>\<close> as the list of its cells in row-major order: cell
  (row, col) is at index \<open>3 * row + col\<close>, and square \<open>move\<close> (1 to 9) is the cell at index
  \<open>move - 1\<close>.  A cell holds \<open>X\<close>, \<open>O\<close> or a space.  The grid class raises an error on an
  access outside the grid; the functions below are used on boards of nine cells and
  squares 1 to 9 only, which is what \<open>legal_position\<close> and \<open>MoveIsLegal\<close> say.
\<close>

definition Opponent :: "playerT \<Rightarrow> playerT" where
  \<comment> \<open>Modelled from the spec: the body of Opponent is missing from the source;
      "Function opponent(p) toggles".\<close>
  "Opponent player = (case player of Human \<Rightarrow> Computer | Computer \<Rightarrow> Human)"

definition PlayerMark :: "playerT \<Rightarrow> char" where
  \<comment> \<open>Modelled from the spec: the body of PlayerMark is missing from the source;
      "X = computer, O = human".\<close>
  "PlayerMark player = (case player of Human \<Rightarrow> CHR ''O'' | Computer \<Rightarrow> CHR ''X'')"

definition NewGame :: stateT where
  \<comment> \<open>Modelled from the spec: the body of NewGame is missing from the source;
      the empty board, the first player to move, no ply played.\<close>
  "NewGame = \<lparr>board = replicate 9 (CHR '' ''), whoseTurn = FIRST_PLAYER, turnsTaken = 0\<rparr>"

definition MoveIsLegal :: "moveT \<Rightarrow> stateT \<Rightarrow> bool" where
  \<comment> \<open>Modelled from the spec: the body of MoveIsLegal is missing from the source;
      "1 \<le> move \<le> 9 AND the addressed cell is empty".\<close>
  "MoveIsLegal move state =
     (1 \<le> move \<and> move \<le> 9 \<and> board state ! nat (move - 1) = CHR '' '')"

definition ttt_GenerateMoveList :: "stateT \<Rightarrow> moveT list" where
  \<comment> \<open>Modelled from the spec: the body of GenerateMoveList is missing from the source;
      "squares 1..9 in ascending order, filtered to empty cells".\<close>
  "ttt_GenerateMoveList state = filter (\<lambda>move. MoveIsLegal move state) [1..9]"

definition ttt_MakeMove :: "stateT \<Rightarrow> moveT \<Rightarrow> stateT" where
  \<comment> \<open>Modelled from the spec: the body of MakeMove is missing from the source;
      "place the current player's mark in the addressed cell, increment the ply counter,
      toggle side-to-move".\<close>
  "ttt_MakeMove state move =
     state\<lparr>board := (board state)[nat (move - 1) := PlayerMark (whoseTurn state)],
           whoseTurn := Opponent (whoseTurn state),
           turnsTaken := turnsTaken state + 1\<rparr>"

definition ttt_RetractMove :: "stateT \<Rightarrow> moveT \<Rightarrow> stateT" where
  \<comment> \<open>Modelled from the spec: the body of RetractMove is missing from the source;
      "clear the cell, decrement the ply counter, toggle side-to-move".\<close>
  "ttt_RetractMove state move =
     state\<lparr>board := (board state)[nat (move - 1) := CHR '' ''],
           whoseTurn := Opponent (whoseTurn state),
           turnsTaken := turnsTaken state - 1\<rparr>"

definition cell :: "char list \<Rightarrow> int \<Rightarrow> int \<Rightarrow> char" where
  \<comment> \<open>Modelled from the spec: the grid class is missing from the source;
      cell (row, col) of the 3 by 3 grid, rows and columns counted from 0, row-major.\<close>
  "cell b row col = b ! nat (3 * row + col)"

definition CheckLine :: "char list \<Rightarrow> char \<Rightarrow> int \<Rightarrow> int \<Rightarrow> int \<Rightarrow> int \<Rightarrow> bool" where
  \<comment> \<open>Modelled from the spec: the body of CheckLine is missing from the source;
      the three cells of the line that starts at (row, col) and advances by (dRow, dCol)
      hold the mark.\<close>
  "CheckLine b mark row col dRow dCol =
     (cell b row col = mark \<and>
      cell b (row + dRow) (col + dCol) = mark \<and>
      cell b (row + 2 * dRow) (col + 2 * dCol) = mark)"

definition CheckForWin_board :: "char list \<Rightarrow> char \<Rightarrow> bool" where
  \<comment> \<open>Modelled from the spec: the body of CheckForWin (on a grid and a mark) is missing
      from the source; "Win detection scans all eight lines (three rows, three columns,
      two diagonals) looking for three identical non-empty marks".\<close>
  "CheckForWin_board b mark =
     (list_ex (\<lambda>i. CheckLine b mark i 0 0 1 \<or> CheckLine b mark 0 i 1 0) [0, 1, 2] \<or>
      CheckLine b mark 0 0 1 1 \<or>
      CheckLine b mark 2 0 (- 1) 1)"

definition CheckForWin :: "stateT \<Rightarrow> playerT \<Rightarrow> bool" where
  \<comment> \<open>Modelled from the spec: the body of CheckForWin (on a state and a player) is missing
      from the source; the player has a three-in-a-row.\<close>
  "CheckForWin state player = CheckForWin_board (board state) (PlayerMark player)"

definition ttt_GameIsOver :: "stateT \<Rightarrow> bool" where
  \<comment> \<open>Modelled from the spec: the body of GameIsOver is missing from the source;
      "true iff either player has three-in-a-row OR the ply counter equals the board
      capacity (9)".\<close>
  "ttt_GameIsOver state =
     (CheckForWin state (whoseTurn state) \<or> CheckForWin state (Opponent (whoseTurn state))
      \<or> turnsTaken state = 9)"

definition ttt_EvaluateStaticPosition :: "stateT \<Rightarrow> int" where
  \<comment> \<open>Modelled from the spec: the body of EvaluateStaticPosition is missing from the source;
      side to move has a three-in-a-row: WIN; the opponent has one: LOSS; otherwise NEUTRAL.\<close>
  "ttt_EvaluateStaticPosition state =
     (if CheckForWin state (whoseTurn state) then WINNING_POSITION
      else if CheckForWin state (Opponent (whoseTurn state)) then LOSING_POSITION
      else NEUTRAL_POSITION)"

definition TicTacToe :: "(stateT, moveT) adapter" where
  "TicTacToe =
     \<lparr>GenerateMoveList = ttt_GenerateMoveList,
      MakeMove = ttt_MakeMove,
      RetractMove = ttt_RetractMove,
      GameIsOver = ttt_GameIsOver,
      EvaluateStaticPosition = ttt_EvaluateStaticPosition\<rparr>"

text \<open>
  A legal tic-tac-toe position: nine cells, and the ply counter is the number of occupied
  cells (invariant (b) of the position in the specification).
\<close>

definition legal_position :: "stateT \<Rightarrow> bool" where
  "legal_position state \<longleftrightarrow>
     length (board state) = 9 \<and>
     turnsTaken state = int (length (filter (\<lambda>c. c \<noteq> CHR '' '') (board state)))"

definition empty_squares :: "stateT \<Rightarrow> nat" where
  "empty_squares state = length (filter (\<lambda>c. c = CHR '' '') (board state))"

section \<open>What the search expects of the game\<close>

text \<open>
  The contract of the game functions on the positions \<open>legal\<close> of a game: the static
  evaluator stays between the two landmark ratings, a position that is not over has a
  move, and a generated move leads to a position of the game from which \<open>RetractMove\<close>
  leads back.
\<close>

definition adapter_contract :: "('s, 'm) adapter \<Rightarrow> ('s \<Rightarrow> bool) \<Rightarrow> bool" where
  "adapter_contract A legal \<longleftrightarrow>
     (\<forall>s. legal s \<longrightarrow>
        LOSING_POSITION \<le> EvaluateStaticPosition A s \<and>
        EvaluateStaticPosition A s \<le> WINNING_POSITION) \<and>
     (\<forall>s. legal s \<longrightarrow> \<not> GameIsOver A s \<longrightarrow> GenerateMoveList A s \<noteq> []) \<and>
     (\<forall>s m. legal s \<longrightarrow> m \<in> set (GenerateMoveList A s) \<longrightarrow>
        legal (MakeMove A s m) \<and> RetractMove A (MakeMove A s m) m = s)"

text \<open>
  The rating \<open>EvaluatePosition\<close> returns, one level deeper, for the position a move leads
  to: the value \<open>curRating\<close> of the loop when \<open>RetractMove\<close> undoes \<open>MakeMove\<close>.
\<close>

definition child_rating :: "('s, 'm) adapter \<Rightarrow> 's \<Rightarrow> int \<Rightarrow> 'm \<Rightarrow> int" where
  "child_rating A state depth move = fst (EvaluatePosition A (MakeMove A state move) (depth + 1))"

section \<open>Auxiliary functions for evaluating and bounding the search\<close>

text \<open>
  The tic-tac-toe functions on a board written as nine explicit cells, without indexing.
  They are proved equal to the definitions above and then used as their code equations.
\<close>

fun cells_win :: "char list \<Rightarrow> char \<Rightarrow> bool" where
  "cells_win [a, b, c, d, e, f, g, h, i] m =
     ((((a = m \<and> b = m \<and> c = m) \<or> (a = m \<and> d = m \<and> g = m)) \<or>
       ((d = m \<and> e = m \<and> f = m) \<or> (b = m \<and> e = m \<and> h = m)) \<or>
       ((g = m \<and> h = m \<and> i = m) \<or> (c = m \<and> f = m \<and> i = m))) \<or>
      (a = m \<and> e = m \<and> i = m) \<or>
      (g = m \<and> e = m \<and> c = m))"
| "cells_win cs m = CheckForWin_board cs m"

fun free_cell :: "moveT \<Rightarrow> char \<Rightarrow> moveT list \<Rightarrow> moveT list" where
  "free_cell move c rest = (if c = CHR '' '' then move # rest else rest)"

fun cells_moves :: "char list \<Rightarrow> moveT list" where
  "cells_moves [a, b, c, d, e, f, g, h, i] =
     free_cell 1 a (free_cell 2 b (free_cell 3 c (free_cell 4 d (free_cell 5 e
       (free_cell 6 f (free_cell 7 g (free_cell 8 h (free_cell 9 i []))))))))"
| "cells_moves cs = filter (\<lambda>move. 1 \<le> move \<and> move \<le> 9 \<and> cs ! nat (move - 1) = CHR '' '') [1..9]"

fun cells_put :: "char list \<Rightarrow> moveT \<Rightarrow> char \<Rightarrow> char list" where
  "cells_put [a, b, c, d, e, f, g, h, i] move v =
     (if move = 1 then [v, b, c, d, e, f, g, h, i]
      else if move = 2 then [a, v, c, d, e, f, g, h, i]
      else if move = 3 then [a, b, v, d, e, f, g, h, i]
      else if move = 4 then [a, b, c, v, e, f, g, h, i]
      else if move = 5 then [a, b, c, d, v, f, g, h, i]
      else if move = 6 then [a, b, c, d, e, v, g, h, i]
      else if move = 7 then [a, b, c, d, e, f, v, h, i]
      else if move = 8 then [a, b, c, d, e, f, g, v, i]
      else if move = 9 then [a, b, c, d, e, f, g, h, v]
      else [a, b, c, d, e, f, g, h, i][nat (move - 1) := v])"
| "cells_put cs move v = cs[nat (move - 1) := v]"

text \<open>
  Two checks on a position, with a bound \<open>n\<close> on the plies looked ahead.
  \<open>rating_ge0\<close> holds when the side to move can reach a rating of at least 0: the game is
  over with such a static rating, or some move leads to a position where \<open>rating_le0\<close>
  holds.  \<open>rating_le0\<close> holds when the side to move cannot get more than 0: the game is
  over with such a static rating, or every move leads to a position where \<open>rating_ge0\<close>
  holds.  They are sound for the rating of \<open>EvaluatePosition\<close> and visit far fewer
  positions than the search.
\<close>

fun rating_ge0 :: "('s, 'm) adapter \<Rightarrow> nat \<Rightarrow> 's \<Rightarrow> bool"
  and rating_le0 :: "('s, 'm) adapter \<Rightarrow> nat \<Rightarrow> 's \<Rightarrow> bool"
  and some_reply_le0 :: "('s, 'm) adapter \<Rightarrow> nat \<Rightarrow> 's \<Rightarrow> 'm list \<Rightarrow> bool"
  and all_replies_ge0 :: "('s, 'm) adapter \<Rightarrow> nat \<Rightarrow> 's \<Rightarrow> 'm list \<Rightarrow> bool"
where
  "rating_ge0 A 0 s = (if GameIsOver A s then 0 \<le> EvaluateStaticPosition A s else False)"
| "rating_ge0 A (Suc n) s =
     (if GameIsOver A s then 0 \<le> EvaluateStaticPosition A s
      else some_reply_le0 A n s (GenerateMoveList A s))"
| "rating_le0 A 0 s = (if GameIsOver A s then EvaluateStaticPosition A s \<le> 0 else False)"
| "rating_le0 A (Suc n) s =
     (if GameIsOver A s then EvaluateStaticPosition A s \<le> 0
      else all_replies_ge0 A n s (GenerateMoveList A s))"
| "some_reply_le0 A n s [] = False"
| "some_reply_le0 A n s (m # ms) =
     (if rating_le0 A n (MakeMove A s m) then True else some_reply_le0 A n s ms)"
| "all_replies_ge0 A n s [] = True"
| "all_replies_ge0 A n s (m # ms) =
     (if rating_ge0 A n (MakeMove A s m) then all_replies_ge0 A n s ms else False)"

section \<open>The search with a bound on the nesting of EvaluatePosition\<close>

text \<open>
  The same three functions with a counter of the activations of \<open>EvaluatePosition\<close> that
  may be nested inside one another: \<open>EvaluatePosition_fuel n\<close> may open \<open>n\<close> nested
  activations, itself included, and returns \<open>None\<close> when the search would need one more.
\<close>

function FindBestMove_loop_fuel ::
    "nat \<Rightarrow> ('s, 'm) adapter \<Rightarrow> 'm list \<Rightarrow> 's \<Rightarrow> int \<Rightarrow> 'm option \<Rightarrow> int
       \<Rightarrow> ('m option \<times> int \<times> 's \<times> string list) option"
  and EvaluatePosition_fuel ::
    "nat \<Rightarrow> ('s, 'm) adapter \<Rightarrow> 's \<Rightarrow> int \<Rightarrow> (int \<times> string list) option"
  and FindBestMove_fuel ::
    "nat \<Rightarrow> ('s, 'm) adapter \<Rightarrow> 's \<Rightarrow> int \<Rightarrow> ('m option \<times> int \<times> string list) option"
where
  "FindBestMove_loop_fuel n A [] state depth bestMove minRating =
     Some (bestMove, minRating, state, [])"
| "FindBestMove_loop_fuel n A (move # rest) state depth bestMove minRating =
     (if minRating = LOSING_POSITION then Some (bestMove, minRating, state, [])
      else
        let state1 = MakeMove A state move
        in case EvaluatePosition_fuel n A state1 (depth + 1) of
             None \<Rightarrow> None
           | Some evaluated \<Rightarrow>
               let curRating = fst evaluated;
                   best = (if curRating < minRating then (Some move, curRating)
                           else (bestMove, minRating));
                   state2 = RetractMove A state1 move
               in case FindBestMove_loop_fuel n A rest state2 depth (fst best) (snd best) of
                    None \<Rightarrow> None
                  | Some looped \<Rightarrow>
                      Some (fst looped, fst (snd looped), fst (snd (snd looped)),
                            snd evaluated @ snd (snd (snd looped))))"
| "EvaluatePosition_fuel 0 A state depth = None"
| "EvaluatePosition_fuel (Suc n) A state depth =
     (if GameIsOver A state \<or> depth \<ge> MAX_DEPTH then Some (EvaluateStaticPosition A state, [])
      else case FindBestMove_fuel n A state depth of
             None \<Rightarrow> None
           | Some found \<Rightarrow> Some (fst (snd found), snd (snd found)))"
| "FindBestMove_fuel n A state depth =
     (let moveList = GenerateMoveList A state;
          nMoves = length moveList;
          said = (if nMoves = 0 then [''No moves available''] else [])
      in case FindBestMove_loop_fuel n A moveList state depth None (WINNING_POSITION + 1) of
           None \<Rightarrow> None
         | Some looped \<Rightarrow>
             Some (fst looped, - fst (snd looped), said @ snd (snd (snd looped))))"
  by pat_completeness auto

termination
  apply (relation "(\<lambda>x. case x of
        Inl (n, A, ms, s, d, b, r) \<Rightarrow> 3 * n + 1
      | Inr (Inl (n, A, s, d)) \<Rightarrow> 3 * n
      | Inr (Inr (n, A, s, d)) \<Rightarrow> 3 * n + 2)
     <*mlex*> measure (\<lambda>x. case x of Inl (n, A, ms, s, d, b, r) \<Rightarrow> length ms | _ \<Rightarrow> 0)")
      apply (auto simp: wf_mlex mlex_prod_def)
  done

declare FindBestMove_fuel.simps [simp del]

section \<open>The search without the early exit\<close>

text \<open>
  The exhaustive search the early exit is compared with: the same three functions, where
  the loop visits every move of the list.  The only difference is the loop condition,
  \<open>i < nMoves\<close> instead of \<open>i < nMoves && minRating != LOSING_POSITION\<close>.
\<close>

function FindBestMove_loop_exhaustive ::
    "('s, 'm) adapter \<Rightarrow> 'm list \<Rightarrow> 's \<Rightarrow> int \<Rightarrow> 'm option \<Rightarrow> int
       \<Rightarrow> 'm option \<times> int \<times> 's \<times> string list"
  and EvaluatePosition_exhaustive :: "('s, 'm) adapter \<Rightarrow> 's \<Rightarrow> int \<Rightarrow> int \<times> string list"
  and FindBestMove_exhaustive ::
    "('s, 'm) adapter \<Rightarrow> 's \<Rightarrow> int \<Rightarrow> 'm option \<times> int \<times> string list"
where
  "FindBestMove_loop_exhaustive A [] state depth bestMove minRating =
     (bestMove, minRating, state, [])"
| "FindBestMove_loop_exhaustive A (move # rest) state depth bestMove minRating =
     (let state1 = MakeMove A state move;
          evaluated = EvaluatePosition_exhaustive A state1 (depth + 1);
          curRating = fst evaluated;
          best = (if curRating < minRating then (Some move, curRating)
                  else (bestMove, minRating));
          state2 = RetractMove A state1 move;
          looped = FindBestMove_loop_exhaustive A rest state2 depth (fst best) (snd best)
      in (fst looped, fst (snd looped), fst (snd (snd looped)),
          snd evaluated @ snd (snd (snd looped))))"
| "EvaluatePosition_exhaustive A state depth =
     (if GameIsOver A state \<or> depth \<ge> MAX_DEPTH then (EvaluateStaticPosition A state, [])
      else
        let found = FindBestMove_exhaustive A state depth
        in (fst (snd found), snd (snd found)))"
| "FindBestMove_exhaustive A state depth =
     (let moveList = GenerateMoveList A state;
          nMoves = length moveList;
          said = (if nMoves = 0 then [''No moves available''] else []);
          looped = FindBestMove_loop_exhaustive A moveList state depth None (WINNING_POSITION + 1)
      in (fst looped, - fst (snd looped), said @ snd (snd (snd looped))))"
  by pat_completeness auto

termination
  apply (relation "(\<lambda>x. case x of
        Inl (A, ms, s, d, b, r) \<Rightarrow> 3 * nat (MAX_DEPTH - (d + 1)) + 1
      | Inr (Inl (A, s, d)) \<Rightarrow> 3 * nat (MAX_DEPTH - d)
      | Inr (Inr (A, s, d)) \<Rightarrow> 3 * nat (MAX_DEPTH - (d + 1)) + 2)
     <*mlex*> measure (\<lambda>x. case x of Inl (A, ms, s, d, b, r) \<Rightarrow> length ms | _ \<Rightarrow> 0)")
      apply (auto simp: wf_mlex mlex_prod_def MAX_DEPTH_def)
  done

declare EvaluatePosition_exhaustive.simps [simp del]

declare FindBestMove_exhaustive.simps [simp del]

section \<open>Positions used as concrete inputs\<close>

text \<open>
  Scenario S3 of the specification, \<open>X X . / O O . / . . .\<close> with the computer to move, and
  scenario S5, a full board with no winner.
\<close>

definition position_S3 :: stateT where
  "position_S3 = \<lparr>board = ''XX OO    '', whoseTurn = Computer, turnsTaken = 4\<rparr>"

definition position_S5 :: stateT where
  "position_S5 = \<lparr>board = ''XOXXOOOXX'', whoseTurn = Human, turnsTaken = 9\<rparr>"

text \<open>
  \<open>O . O / . . X / O X X\<close> with the computer to move: three empty squares, no line
  completed, and three open lines of \<open>O\<close>.
\<close>

definition position_three_threats :: stateT where
  "position_three_threats = \<lparr>board = ''O O  XOXX'', whoseTurn = Computer, turnsTaken = 6\<rparr>"
section \<open>The loop of FindBestMove\<close>

text \<open>
  When \<open>RetractMove\<close> undoes \<open>MakeMove\<close> on the moves of the list, the loop keeps its state,
  and when no rating is below \<open>LOSING_POSITION\<close> it computes the minimum of the ratings of
  the moves and the first move that reaches it.
\<close>

lemma Min_insert_insert:
  "finite S \<Longrightarrow> Min (insert a (insert b S)) = Min (insert (min a b) S)" for a :: int
  by (cases "S = {}") (simp_all add: min.assoc)

lemma loop_state:
  "(\<forall>m\<in>set ms. RetractMove A (MakeMove A s m) m = s) \<Longrightarrow>
   fst (snd (snd (FindBestMove_loop A ms s d b r))) = s"
  by (induction ms arbitrary: b r) (simp_all add: Let_def)

lemma loop_rating:
  "(\<forall>m\<in>set ms. RetractMove A (MakeMove A s m) m = s) \<Longrightarrow>
   (\<forall>m\<in>set ms. LOSING_POSITION \<le> child_rating A s d m) \<Longrightarrow>
   LOSING_POSITION \<le> r \<Longrightarrow>
   fst (snd (FindBestMove_loop A ms s d b r)) = Min (insert r (child_rating A s d ` set ms))"
proof (induction ms arbitrary: b r)
  case Nil
  then show ?case by simp
next
  case (Cons m ms)
  show ?case
  proof (cases "r = LOSING_POSITION")
    case True
    have "Min (insert r (child_rating A s d ` set (m # ms))) = r"
      using Cons.prems True by (intro Min_eqI) auto
    then show ?thesis using True by simp
  next
    case False
    let ?c = "child_rating A s d m"
    let ?r1 = "if ?c < r then ?c else r"
    have r1: "LOSING_POSITION \<le> ?r1" using Cons.prems by simp
    have rt: "RetractMove A (MakeMove A s m) m = s" using Cons.prems by simp
    have "fst (snd (FindBestMove_loop A (m # ms) s d b r)) =
          fst (snd (FindBestMove_loop A ms s d (if ?c < r then Some m else b) ?r1))"
      using False rt by (simp add: Let_def child_rating_def)
    also have "\<dots> = Min (insert ?r1 (child_rating A s d ` set ms))"
      using Cons.prems r1 by (intro Cons.IH) auto
    also have "\<dots> = Min (insert r (child_rating A s d ` set (m # ms)))"
    proof -
      have "?r1 = min r ?c" by (simp add: min_def)
      moreover have "child_rating A s d ` set (m # ms) = insert ?c (child_rating A s d ` set ms)"
        by simp
      moreover have "Min (insert r (insert ?c (child_rating A s d ` set ms)))
                     = Min (insert (min r ?c) (child_rating A s d ` set ms))"
        by (rule Min_insert_insert) simp
      ultimately show ?thesis by (simp only:)
    qed
    finally show ?thesis .
  qed
qed

lemma loop_best:
  "(\<forall>m\<in>set ms. RetractMove A (MakeMove A s m) m = s) \<Longrightarrow>
   (\<forall>m\<in>set ms. LOSING_POSITION \<le> child_rating A s d m) \<Longrightarrow>
   LOSING_POSITION \<le> r \<Longrightarrow>
   fst (FindBestMove_loop A ms s d b r) =
     (if Min (insert r (child_rating A s d ` set ms)) < r
      then find (\<lambda>m. child_rating A s d m = Min (insert r (child_rating A s d ` set ms))) ms
      else b)"
proof (induction ms arbitrary: b r)
  case Nil
  then show ?case by simp
next
  case (Cons m ms)
  define M where "M = Min (insert r (child_rating A s d ` set (m # ms)))"
  show ?case
  proof (cases "r = LOSING_POSITION")
    case True
    have "M = r"
      unfolding M_def using Cons.prems True by (intro Min_eqI) auto
    then show ?thesis unfolding M_def [symmetric] using True by simp
  next
    case False
    define c where "c = child_rating A s d m"
    define r1 where "r1 = (if c < r then c else r)"
    define b1 where "b1 = (if c < r then Some m else b)"
    have r1: "LOSING_POSITION \<le> r1" using Cons.prems by (simp add: r1_def c_def)
    have rt: "RetractMove A (MakeMove A s m) m = s" using Cons.prems by simp
    have M1: "Min (insert r1 (child_rating A s d ` set ms)) = M"
    proof -
      have "r1 = min r c" by (simp add: min_def r1_def)
      moreover have "child_rating A s d ` set (m # ms) = insert c (child_rating A s d ` set ms)"
        by (simp add: c_def)
      moreover have "Min (insert r (insert c (child_rating A s d ` set ms)))
                     = Min (insert (min r c) (child_rating A s d ` set ms))"
        by (rule Min_insert_insert) simp
      ultimately show ?thesis unfolding M_def by (simp only:)
    qed
    have Mle: "M \<le> r1"
      unfolding M1 [symmetric] by (rule Min_le) auto
    have "fst (FindBestMove_loop A (m # ms) s d b r) = fst (FindBestMove_loop A ms s d b1 r1)"
      using False rt by (simp add: Let_def child_rating_def r1_def b1_def c_def)
    also have "\<dots> = (if M < r1 then find (\<lambda>m. child_rating A s d m = M) ms else b1)"
      using Cons.IH [of r1 b1] Cons.prems r1 unfolding M1 by simp
    also have "\<dots> = (if M < r then find (\<lambda>m. child_rating A s d m = M) (m # ms) else b)"
    proof (cases "M < r1")
      case True
      then have "M < r" and "c \<noteq> M" by (auto simp: r1_def split: if_splits)
      then show ?thesis using True by (simp add: c_def)
    next
      case False
      then have eq: "M = r1" using Mle by linarith
      show ?thesis
      proof (cases "c < r")
        case True
        then show ?thesis using eq by (simp add: r1_def b1_def c_def)
      next
        case False
        then show ?thesis using eq by (simp add: r1_def b1_def)
      qed
    qed
    finally show ?thesis unfolding M_def .
  qed
qed

section \<open>The search on a game that meets the contract\<close>

lemma EvaluatePosition_bounds:
  "adapter_contract A legal \<Longrightarrow> legal s \<Longrightarrow>
   LOSING_POSITION \<le> fst (EvaluatePosition A s d) \<and>
   fst (EvaluatePosition A s d) \<le> WINNING_POSITION"
proof (induction "nat (MAX_DEPTH - d)" arbitrary: s d)
  case 0
  then have "MAX_DEPTH \<le> d" by simp
  then show ?case
    using "0.prems" by (simp add: EvaluatePosition.simps adapter_contract_def)
next
  case (Suc n)
  show ?case
  proof (cases "GameIsOver A s")
    case True
    then show ?thesis
      using Suc.prems by (simp add: EvaluatePosition.simps adapter_contract_def)
  next
    case False
    define ms where "ms = GenerateMoveList A s"
    define M where "M = Min (insert (WINNING_POSITION + 1) (child_rating A s d ` set ms))"
    have d: "\<not> MAX_DEPTH \<le> d" using Suc.hyps(2) by linarith
    have n: "n = nat (MAX_DEPTH - (d + 1))" using Suc.hyps(2) by linarith
    have ne: "ms \<noteq> []" using Suc.prems False by (simp add: adapter_contract_def ms_def)
    have rt: "\<forall>m\<in>set ms. RetractMove A (MakeMove A s m) m = s"
      using Suc.prems by (simp add: adapter_contract_def ms_def)
    have leg: "\<forall>m\<in>set ms. legal (MakeMove A s m)"
      using Suc.prems by (simp add: adapter_contract_def ms_def)
    have b: "\<forall>m\<in>set ms. LOSING_POSITION \<le> child_rating A s d m \<and>
                            child_rating A s d m \<le> WINNING_POSITION"
      using Suc.hyps(1) [OF n Suc.prems(1)] leg by (simp add: child_rating_def)
    have "fst (EvaluatePosition A s d) =
          - fst (snd (FindBestMove_loop A ms s d None (WINNING_POSITION + 1)))"
      using False d by (simp add: EvaluatePosition.simps FindBestMove.simps Let_def ms_def)
    also have "\<dots> = - M"
      unfolding M_def using rt b
      by (subst loop_rating) (auto simp: LOSING_POSITION_def WINNING_POSITION_def)
    finally have eq: "fst (EvaluatePosition A s d) = - M" .
    obtain m where m: "m \<in> set ms" using ne by (cases ms) auto
    have "M \<le> child_rating A s d m"
      unfolding M_def using m by (intro Min_le) auto
    then have up: "M \<le> WINNING_POSITION"
      using b m by force
    have "M \<in> insert (WINNING_POSITION + 1) (child_rating A s d ` set ms)"
      unfolding M_def by (intro Min_in) auto
    then have lo: "LOSING_POSITION \<le> M"
      using b by (auto simp: LOSING_POSITION_def WINNING_POSITION_def)
    show ?thesis using eq up lo by (simp add: LOSING_POSITION_def)
  qed
qed

lemma FindBestMove_found:
  assumes "adapter_contract A legal" and "legal s" and "GenerateMoveList A s \<noteq> []"
  shows "fst (snd (FindBestMove A s d)) = - Min (child_rating A s d ` set (GenerateMoveList A s))"
    and "fst (FindBestMove A s d) =
           find (\<lambda>m. child_rating A s d m = Min (child_rating A s d ` set (GenerateMoveList A s)))
             (GenerateMoveList A s)"
proof -
  define ms where "ms = GenerateMoveList A s"
  define C where "C = child_rating A s d ` set ms"
  have rt: "\<forall>m\<in>set ms. RetractMove A (MakeMove A s m) m = s"
    using assms by (simp add: adapter_contract_def ms_def)
  have leg: "\<forall>m\<in>set ms. legal (MakeMove A s m)"
    using assms by (simp add: adapter_contract_def ms_def)
  have b: "\<forall>m\<in>set ms. LOSING_POSITION \<le> child_rating A s d m \<and>
                          child_rating A s d m \<le> WINNING_POSITION"
    using EvaluatePosition_bounds [OF assms(1)] leg by (simp add: child_rating_def)
  have fin: "finite C" and ne: "C \<noteq> {}" using assms(3) by (simp_all add: C_def ms_def)
  have "Min C \<in> C" using fin ne by (rule Min_in)
  then have up: "Min C \<le> WINNING_POSITION" using b by (auto simp: C_def)
  have "Min (insert (WINNING_POSITION + 1) C) = min (WINNING_POSITION + 1) (Min C)"
    using fin ne by (rule Min_insert)
  with up have M: "Min (insert (WINNING_POSITION + 1) C) = Min C"
    by linarith
  have lo: "LOSING_POSITION \<le> WINNING_POSITION + 1"
    by (simp add: LOSING_POSITION_def WINNING_POSITION_def)
  have "fst (snd (FindBestMove_loop A ms s d None (WINNING_POSITION + 1))) = Min C"
    using loop_rating [OF rt _ lo, where b = None] b M by (simp add: C_def)
  then show "fst (snd (FindBestMove A s d)) = - Min (child_rating A s d ` set (GenerateMoveList A s))"
    by (simp add: FindBestMove.simps Let_def ms_def C_def)
  have "fst (FindBestMove_loop A ms s d None (WINNING_POSITION + 1)) =
          find (\<lambda>m. child_rating A s d m = Min C) ms"
    using loop_best [OF rt _ lo, where b = None] b M up by (simp add: C_def)
  then show "fst (FindBestMove A s d) =
           find (\<lambda>m. child_rating A s d m = Min (child_rating A s d ` set (GenerateMoveList A s)))
             (GenerateMoveList A s)"
    by (simp add: FindBestMove.simps Let_def ms_def C_def)
qed

section \<open>Tic-tac-toe meets the contract\<close>

lemma filter_update_occupied:
  "i < length xs \<Longrightarrow> \<not> P (xs ! i) \<Longrightarrow> P v \<Longrightarrow>
   length (filter P (xs[i := v])) = Suc (length (filter P xs))"
proof (induction xs arbitrary: i)
  case Nil
  then show ?case by simp
next
  case (Cons x xs)
  then show ?case by (cases i) auto
qed

lemma filter_update_cleared:
  "i < length xs \<Longrightarrow> P (xs ! i) \<Longrightarrow> \<not> P v \<Longrightarrow>
   Suc (length (filter P (xs[i := v]))) = length (filter P xs)"
proof (induction xs arbitrary: i)
  case Nil
  then show ?case by simp
next
  case (Cons x xs)
  then show ?case by (cases i) auto
qed

lemma PlayerMark_occupied: "PlayerMark p \<noteq> CHR '' ''"
  by (cases p) (simp_all add: PlayerMark_def)

lemma Opponent_Opponent: "Opponent (Opponent p) = p"
  by (cases p) (simp_all add: Opponent_def)

lemma ttt_move_in_list:
  "m \<in> set (ttt_GenerateMoveList s) \<longleftrightarrow> 1 \<le> m \<and> m \<le> 9 \<and> board s ! nat (m - 1) = CHR '' ''"
  by (auto simp: ttt_GenerateMoveList_def MoveIsLegal_def)

lemma ttt_roundtrip:
  assumes "m \<in> set (ttt_GenerateMoveList s)"
  shows "ttt_RetractMove (ttt_MakeMove s m) m = s"
proof -
  have "board s ! nat (m - 1) = CHR '' ''"
    using assms by (simp add: ttt_move_in_list)
  then have "(board s)[nat (m - 1) := CHR '' ''] = board s"
    by (metis list_update_id)
  then show ?thesis
    by (simp add: ttt_RetractMove_def ttt_MakeMove_def Opponent_Opponent)
qed

lemma ttt_MakeMove_legal:
  assumes "legal_position s" and "m \<in> set (ttt_GenerateMoveList s)"
  shows "legal_position (ttt_MakeMove s m)"
proof -
  have i: "nat (m - 1) < length (board s)" and e: "board s ! nat (m - 1) = CHR '' ''"
    using assms by (auto simp: ttt_move_in_list legal_position_def)
  have "length (filter (\<lambda>c. c \<noteq> CHR '' '') ((board s)[nat (m - 1) := PlayerMark (whoseTurn s)]))
        = Suc (length (filter (\<lambda>c. c \<noteq> CHR '' '') (board s)))"
    using i e by (intro filter_update_occupied) (simp_all add: PlayerMark_occupied)
  then show ?thesis
    using assms(1) by (simp add: legal_position_def ttt_MakeMove_def)
qed

lemma ttt_has_move:
  assumes "legal_position s" and "\<not> ttt_GameIsOver s"
  shows "ttt_GenerateMoveList s \<noteq> []"
proof -
  have len: "length (board s) = 9" and t: "turnsTaken s \<noteq> 9"
    using assms by (auto simp: legal_position_def ttt_GameIsOver_def)
  have "length (filter (\<lambda>c. c \<noteq> CHR '' '') (board s)) \<noteq> length (board s)"
    using assms(1) t len by (simp add: legal_position_def)
  then have "filter (\<lambda>c. c \<noteq> CHR '' '') (board s) \<noteq> board s"
    by auto
  then have "\<exists>c\<in>set (board s). \<not> c \<noteq> CHR '' ''"
    using filter_True [of "board s" "\<lambda>c. c \<noteq> CHR '' ''"] by blast
  then obtain i where i: "i < 9" and e: "board s ! i = CHR '' ''"
    using len by (auto simp: in_set_conv_nth)
  then have "int i + 1 \<in> set (ttt_GenerateMoveList s)"
    by (simp add: ttt_move_in_list)
  then show ?thesis by auto
qed

lemma ttt_static_bounds:
  "LOSING_POSITION \<le> ttt_EvaluateStaticPosition s \<and> ttt_EvaluateStaticPosition s \<le> WINNING_POSITION"
  by (simp add: ttt_EvaluateStaticPosition_def LOSING_POSITION_def WINNING_POSITION_def
      NEUTRAL_POSITION_def)

lemma TicTacToe_contract: "adapter_contract TicTacToe legal_position"
  unfolding adapter_contract_def
  by (simp add: TicTacToe_def ttt_static_bounds ttt_has_move ttt_MakeMove_legal ttt_roundtrip)

section \<open>Code equations on nine explicit cells\<close>

lemma CheckForWin_board_nine:
  "CheckForWin_board [a, b, c, d, e, f, g, h, i] m =
     ((((a = m \<and> b = m \<and> c = m) \<or> (a = m \<and> d = m \<and> g = m)) \<or>
       ((d = m \<and> e = m \<and> f = m) \<or> (b = m \<and> e = m \<and> h = m)) \<or>
       ((g = m \<and> h = m \<and> i = m) \<or> (c = m \<and> f = m \<and> i = m))) \<or>
      (a = m \<and> e = m \<and> i = m) \<or>
      (g = m \<and> e = m \<and> c = m))"
proof -
  let ?b = "[a, b, c, d, e, f, g, h, i]"
  have rows: "CheckLine ?b m 0 0 0 1 = (a = m \<and> b = m \<and> c = m)"
    "CheckLine ?b m 1 0 0 1 = (d = m \<and> e = m \<and> f = m)"
    "CheckLine ?b m 2 0 0 1 = (g = m \<and> h = m \<and> i = m)"
    by (simp_all add: CheckLine_def cell_def)
  have cols: "CheckLine ?b m 0 0 1 0 = (a = m \<and> d = m \<and> g = m)"
    "CheckLine ?b m 0 1 1 0 = (b = m \<and> e = m \<and> h = m)"
    "CheckLine ?b m 0 2 1 0 = (c = m \<and> f = m \<and> i = m)"
    by (simp_all add: CheckLine_def cell_def)
  have diags: "CheckLine ?b m 0 0 1 1 = (a = m \<and> e = m \<and> i = m)"
    "CheckLine ?b m 2 0 (- 1) 1 = (g = m \<and> e = m \<and> c = m)"
    by (simp_all add: CheckLine_def cell_def)
  have "CheckForWin_board ?b m =
     (((CheckLine ?b m 0 0 0 1 \<or> CheckLine ?b m 0 0 1 0) \<or>
       (CheckLine ?b m 1 0 0 1 \<or> CheckLine ?b m 0 1 1 0) \<or>
       (CheckLine ?b m 2 0 0 1 \<or> CheckLine ?b m 0 2 1 0)) \<or>
      CheckLine ?b m 0 0 1 1 \<or> CheckLine ?b m 2 0 (- 1) 1)"
    unfolding CheckForWin_board_def
    by (simp only: list_ex_Nil_iff list_ex_Cons_iff simp_thms)
  then show ?thesis
    by (simp only: rows cols diags)
qed

lemma cells_win_eq: "cells_win cs m = CheckForWin_board cs m"
  by (induction cs m rule: cells_win.induct)
    (simp_all only: cells_win.simps CheckForWin_board_nine)

lemma CheckForWin_cells [code]:
  "CheckForWin state player = cells_win (board state) (PlayerMark player)"
  by (simp add: CheckForWin_def cells_win_eq)

lemma upto_1_9: "[1..9] = [1, 2, 3, 4, 5, 6, 7, 8, 9::int]"
  by (simp add: upto.simps)

lemma cells_moves_eq:
  "cells_moves cs = filter (\<lambda>move. 1 \<le> move \<and> move \<le> 9 \<and> cs ! nat (move - 1) = CHR '' '') [1..9]"
  by (induction cs rule: cells_moves.induct) (simp_all add: upto_1_9)

lemma GenerateMoveList_cells [code]:
  "ttt_GenerateMoveList state = cells_moves (board state)"
  by (simp add: ttt_GenerateMoveList_def MoveIsLegal_def cells_moves_eq)

lemma cells_put_eq: "cells_put cs move v = cs[nat (move - 1) := v]"
  by (induction cs move v rule: cells_put.induct) (simp_all add: nat_diff_distrib)

lemma MakeMove_cells [code]:
  "ttt_MakeMove state move =
     state\<lparr>board := cells_put (board state) move (PlayerMark (whoseTurn state)),
           whoseTurn := Opponent (whoseTurn state),
           turnsTaken := turnsTaken state + 1\<rparr>"
  by (simp add: ttt_MakeMove_def cells_put_eq)

section \<open>Soundness of the two checks\<close>

lemma some_reply_le0_iff:
  "some_reply_le0 A n s ms \<longleftrightarrow> (\<exists>m\<in>set ms. rating_le0 A n (MakeMove A s m))"
  by (induction ms) simp_all

lemma all_replies_ge0_iff:
  "all_replies_ge0 A n s ms \<longleftrightarrow> (\<forall>m\<in>set ms. rating_ge0 A n (MakeMove A s m))"
  by (induction ms) simp_all

lemma EvaluatePosition_static:
  "GameIsOver A s \<or> MAX_DEPTH \<le> d \<Longrightarrow>
   EvaluatePosition A s d = (EvaluateStaticPosition A s, [])"
  by (simp add: EvaluatePosition.simps)

lemma EvaluatePosition_search:
  "\<not> GameIsOver A s \<Longrightarrow> d < MAX_DEPTH \<Longrightarrow>
   EvaluatePosition A s d = (fst (snd (FindBestMove A s d)), snd (snd (FindBestMove A s d)))"
  by (simp add: EvaluatePosition.simps Let_def)

lemma rating_certificates:
  assumes "adapter_contract A legal"
  shows "(legal s \<longrightarrow> rating_ge0 A n s \<longrightarrow> d + int n \<le> MAX_DEPTH \<longrightarrow>
            0 \<le> fst (EvaluatePosition A s d)) \<and>
         (legal s \<longrightarrow> rating_le0 A n s \<longrightarrow> d + int n \<le> MAX_DEPTH \<longrightarrow>
            fst (EvaluatePosition A s d) \<le> 0)"
proof (induction n arbitrary: s d)
  case 0
  show ?case
    by (auto simp: EvaluatePosition_static split: if_splits)
next
  case (Suc n)
  show ?case
  proof (cases "GameIsOver A s")
    case True
    then show ?thesis by (simp add: EvaluatePosition_static)
  next
    case False
    define ms where "ms = GenerateMoveList A s"
    define C where "C = child_rating A s d ` set ms"
    show ?thesis
    proof (intro conjI impI)
      assume leg: "legal s" and d: "d + int (Suc n) \<le> MAX_DEPTH"
      have ne: "ms \<noteq> []"
        using assms leg False by (simp add: adapter_contract_def ms_def)
      have legc: "\<forall>m\<in>set ms. legal (MakeMove A s m)"
        using assms leg by (simp add: adapter_contract_def ms_def)
      have eq: "fst (EvaluatePosition A s d) = - Min C"
        using False d FindBestMove_found(1) [OF assms leg, of d] ne
        by (simp add: EvaluatePosition_search ms_def C_def)
      have fin: "finite C" and neC: "C \<noteq> {}" using ne by (simp_all add: C_def)
      {
        assume "rating_ge0 A (Suc n) s"
        then obtain m where m: "m \<in> set ms" and le: "rating_le0 A n (MakeMove A s m)"
          using False by (auto simp: some_reply_le0_iff ms_def)
        have "child_rating A s d m \<le> 0"
          using Suc [of "MakeMove A s m" "d + 1"] legc m le d by (simp add: child_rating_def)
        moreover have "Min C \<le> child_rating A s d m"
          using fin m by (intro Min_le) (simp_all add: C_def)
        ultimately show "0 \<le> fst (EvaluatePosition A s d)"
          using eq by linarith
      }
      {
        assume "rating_le0 A (Suc n) s"
        then have ge: "\<forall>m\<in>set ms. rating_ge0 A n (MakeMove A s m)"
          using False by (simp add: all_replies_ge0_iff ms_def)
        have "Min C \<in> C" using fin neC by (rule Min_in)
        then obtain m where m: "m \<in> set ms" and M: "Min C = child_rating A s d m"
          by (auto simp: C_def)
        have "0 \<le> child_rating A s d m"
          using Suc [of "MakeMove A s m" "d + 1"] legc m ge d by (simp add: child_rating_def)
        then show "fst (EvaluatePosition A s d) \<le> 0"
          using eq M by linarith
      }
    qed
  qed
qed

lemma loop_output:
  "(\<forall>m\<in>set ms. RetractMove A (MakeMove A s m) m = s) \<Longrightarrow>
   (\<forall>m\<in>set ms. snd (EvaluatePosition A (MakeMove A s m) (d + 1)) = []) \<Longrightarrow>
   snd (snd (snd (FindBestMove_loop A ms s d b r))) = []"
  by (induction ms arbitrary: b r) (simp_all add: Let_def)

lemma EvaluatePosition_silent:
  "adapter_contract A legal \<Longrightarrow> legal s \<Longrightarrow> snd (EvaluatePosition A s d) = []"
proof (induction "nat (MAX_DEPTH - d)" arbitrary: s d)
  case 0
  then have "MAX_DEPTH \<le> d" by simp
  then show ?case by (simp add: EvaluatePosition_static)
next
  case (Suc n)
  show ?case
  proof (cases "GameIsOver A s")
    case True
    then show ?thesis by (simp add: EvaluatePosition_static)
  next
    case False
    define ms where "ms = GenerateMoveList A s"
    have d: "d < MAX_DEPTH" using Suc.hyps(2) by linarith
    have n: "n = nat (MAX_DEPTH - (d + 1))" using Suc.hyps(2) by linarith
    have ne: "ms \<noteq> []" using Suc.prems False by (simp add: adapter_contract_def ms_def)
    have rt: "\<forall>m\<in>set ms. RetractMove A (MakeMove A s m) m = s"
      using Suc.prems by (simp add: adapter_contract_def ms_def)
    have leg: "\<forall>m\<in>set ms. legal (MakeMove A s m)"
      using Suc.prems by (simp add: adapter_contract_def ms_def)
    have "\<forall>m\<in>set ms. snd (EvaluatePosition A (MakeMove A s m) (d + 1)) = []"
      using Suc.hyps(1) [OF n Suc.prems(1)] leg by simp
    then have "snd (snd (snd (FindBestMove_loop A ms s d None (WINNING_POSITION + 1)))) = []"
      using rt by (rule loop_output [rotated])
    then show ?thesis
      using False d ne by (simp add: EvaluatePosition_search FindBestMove.simps Let_def ms_def)
  qed
qed

section \<open>The value of the empty board\<close>

text \<open>
  The empty board is worth at least 0 and at most 0 for the side to move.  The second
  check is split by the first move.
\<close>

lemma NewGame_legal: "legal_position NewGame"
  by (simp add: legal_position_def NewGame_def)

lemma NewGame_ge0: "rating_ge0 TicTacToe 9 NewGame"
  by code_simp

lemma NewGame_moves: "GenerateMoveList TicTacToe NewGame = [1, 2, 3, 4, 5, 6, 7, 8, 9]"
  by code_simp

lemma NewGame_not_over: "\<not> GameIsOver TicTacToe NewGame"
  by code_simp

lemma first_move_1: "rating_ge0 TicTacToe 8 (MakeMove TicTacToe NewGame 1)"
  by code_simp

lemma first_move_2: "rating_ge0 TicTacToe 8 (MakeMove TicTacToe NewGame 2)"
  by code_simp

lemma first_move_3: "rating_ge0 TicTacToe 8 (MakeMove TicTacToe NewGame 3)"
  by code_simp

lemma first_move_4: "rating_ge0 TicTacToe 8 (MakeMove TicTacToe NewGame 4)"
  by code_simp

lemma first_move_5: "rating_ge0 TicTacToe 8 (MakeMove TicTacToe NewGame 5)"
  by code_simp

lemma first_move_6: "rating_ge0 TicTacToe 8 (MakeMove TicTacToe NewGame 6)"
  by code_simp

lemma first_move_7: "rating_ge0 TicTacToe 8 (MakeMove TicTacToe NewGame 7)"
  by code_simp

lemma first_move_8: "rating_ge0 TicTacToe 8 (MakeMove TicTacToe NewGame 8)"
  by code_simp

lemma first_move_9: "rating_ge0 TicTacToe 8 (MakeMove TicTacToe NewGame 9)"
  by code_simp

lemma NewGame_le0: "rating_le0 TicTacToe 9 NewGame"
proof -
  have "all_replies_ge0 TicTacToe 8 NewGame [1, 2, 3, 4, 5, 6, 7, 8, 9]"
    using first_move_1 first_move_2 first_move_3 first_move_4 first_move_5
      first_move_6 first_move_7 first_move_8 first_move_9
    by (simp only: all_replies_ge0.simps if_True)
  then have "rating_le0 TicTacToe (Suc 8) NewGame"
    by (simp only: rating_le0.simps NewGame_moves NewGame_not_over if_False)
  moreover have "(9::nat) = Suc 8" by simp
  ultimately show ?thesis by (simp only:)
qed

section \<open>The early exit against the exhaustive search\<close>

lemma loop_exhaustive_at_loss:
  "(\<forall>m\<in>set ms. RetractMove A (MakeMove A s m) m = s) \<Longrightarrow>
   (\<forall>m\<in>set ms. r \<le> fst (EvaluatePosition_exhaustive A (MakeMove A s m) (d + 1)) \<and>
                 snd (EvaluatePosition_exhaustive A (MakeMove A s m) (d + 1)) = []) \<Longrightarrow>
   FindBestMove_loop_exhaustive A ms s d b r = (b, r, s, [])"
  by (induction ms) (simp_all add: Let_def)

lemma loop_exhaustive_eq:
  "(\<forall>m\<in>set ms. RetractMove A (MakeMove A s m) m = s) \<Longrightarrow>
   (\<forall>m\<in>set ms. EvaluatePosition_exhaustive A (MakeMove A s m) (d + 1)
                   = EvaluatePosition A (MakeMove A s m) (d + 1)) \<Longrightarrow>
   (\<forall>m\<in>set ms. LOSING_POSITION \<le> fst (EvaluatePosition A (MakeMove A s m) (d + 1)) \<and>
                 snd (EvaluatePosition A (MakeMove A s m) (d + 1)) = []) \<Longrightarrow>
   FindBestMove_loop A ms s d b r = FindBestMove_loop_exhaustive A ms s d b r"
proof (induction ms arbitrary: b r)
  case Nil
  then show ?case by simp
next
  case (Cons m ms)
  show ?case
  proof (cases "r = LOSING_POSITION")
    case True
    have "FindBestMove_loop_exhaustive A (m # ms) s d b r = (b, r, s, [])"
      using Cons.prems True by (intro loop_exhaustive_at_loss) simp_all
    then show ?thesis using True by simp
  next
    case False
    then show ?thesis
      using Cons.prems Cons.IH by (simp add: Let_def)
  qed
qed

lemma EvaluatePosition_exhaustive_eq:
  "adapter_contract A legal \<Longrightarrow> legal s \<Longrightarrow>
   EvaluatePosition_exhaustive A s d = EvaluatePosition A s d"
proof (induction "nat (MAX_DEPTH - d)" arbitrary: s d)
  case 0
  then have "MAX_DEPTH \<le> d" by simp
  then show ?case
    by (simp add: EvaluatePosition.simps EvaluatePosition_exhaustive.simps)
next
  case (Suc n)
  show ?case
  proof (cases "GameIsOver A s")
    case True
    then show ?thesis
      by (simp add: EvaluatePosition.simps EvaluatePosition_exhaustive.simps)
  next
    case False
    define ms where "ms = GenerateMoveList A s"
    have n: "n = nat (MAX_DEPTH - (d + 1))" using Suc.hyps(2) by linarith
    have rt: "\<forall>m\<in>set ms. RetractMove A (MakeMove A s m) m = s"
      using Suc.prems by (simp add: adapter_contract_def ms_def)
    have leg: "\<forall>m\<in>set ms. legal (MakeMove A s m)"
      using Suc.prems by (simp add: adapter_contract_def ms_def)
    have eq: "\<forall>m\<in>set ms. EvaluatePosition_exhaustive A (MakeMove A s m) (d + 1)
                            = EvaluatePosition A (MakeMove A s m) (d + 1)"
      using Suc.hyps(1) [OF n Suc.prems(1)] leg by simp
    have b: "\<forall>m\<in>set ms. LOSING_POSITION \<le> fst (EvaluatePosition A (MakeMove A s m) (d + 1)) \<and>
                           snd (EvaluatePosition A (MakeMove A s m) (d + 1)) = []"
      using EvaluatePosition_bounds [OF Suc.prems(1)] EvaluatePosition_silent [OF Suc.prems(1)] leg
      by simp
    have "FindBestMove_loop A ms s d None (WINNING_POSITION + 1)
          = FindBestMove_loop_exhaustive A ms s d None (WINNING_POSITION + 1)"
      using rt eq b by (rule loop_exhaustive_eq)
    then show ?thesis
      by (simp add: EvaluatePosition.simps EvaluatePosition_exhaustive.simps
          FindBestMove.simps FindBestMove_exhaustive.simps Let_def ms_def)
  qed
qed

lemma FindBestMove_exhaustive_eq:
  assumes "adapter_contract A legal" and "legal s"
  shows "FindBestMove A s d = FindBestMove_exhaustive A s d"
proof -
  define ms where "ms = GenerateMoveList A s"
  have rt: "\<forall>m\<in>set ms. RetractMove A (MakeMove A s m) m = s"
    using assms by (simp add: adapter_contract_def ms_def)
  have leg: "\<forall>m\<in>set ms. legal (MakeMove A s m)"
    using assms by (simp add: adapter_contract_def ms_def)
  have eq: "\<forall>m\<in>set ms. EvaluatePosition_exhaustive A (MakeMove A s m) (d + 1)
                          = EvaluatePosition A (MakeMove A s m) (d + 1)"
    using EvaluatePosition_exhaustive_eq [OF assms(1)] leg by simp
  have b: "\<forall>m\<in>set ms. LOSING_POSITION \<le> fst (EvaluatePosition A (MakeMove A s m) (d + 1)) \<and>
                         snd (EvaluatePosition A (MakeMove A s m) (d + 1)) = []"
    using EvaluatePosition_bounds [OF assms(1)] EvaluatePosition_silent [OF assms(1)] leg
    by simp
  have "FindBestMove_loop A ms s d None (WINNING_POSITION + 1)
        = FindBestMove_loop_exhaustive A ms s d None (WINNING_POSITION + 1)"
    using rt eq b by (rule loop_exhaustive_eq)
  then show ?thesis
    by (simp add: FindBestMove.simps FindBestMove_exhaustive.simps Let_def ms_def)
qed

section \<open>Nesting depth of the search on tic-tac-toe\<close>

lemma loop_fuel_eq:
  "(\<forall>m\<in>set ms. RetractMove A (MakeMove A s m) m = s) \<Longrightarrow>
   (\<forall>m\<in>set ms. EvaluatePosition_fuel n A (MakeMove A s m) (d + 1)
                   = Some (EvaluatePosition A (MakeMove A s m) (d + 1))) \<Longrightarrow>
   FindBestMove_loop_fuel n A ms s d b r = Some (FindBestMove_loop A ms s d b r)"
  by (induction ms arbitrary: b r) (simp_all add: Let_def)

lemma loop_depth_eq:
  "(\<forall>m\<in>set ms. RetractMove A (MakeMove A s m) m = s) \<Longrightarrow>
   (\<forall>m\<in>set ms. EvaluatePosition A (MakeMove A s m) (d + 1)
                   = EvaluatePosition A (MakeMove A s m) (d' + 1)) \<Longrightarrow>
   FindBestMove_loop A ms s d b r = FindBestMove_loop A ms s d' b r"
  by (induction ms arbitrary: b r) (simp_all add: Let_def)

lemma ttt_MakeMove_empty_squares:
  assumes "legal_position s" and "m \<in> set (ttt_GenerateMoveList s)"
  shows "Suc (empty_squares (ttt_MakeMove s m)) = empty_squares s"
proof -
  have i: "nat (m - 1) < length (board s)" and e: "board s ! nat (m - 1) = CHR '' ''"
    using assms by (auto simp: ttt_move_in_list legal_position_def)
  have "Suc (length (filter (\<lambda>c. c = CHR '' '') ((board s)[nat (m - 1) := PlayerMark (whoseTurn s)])))
        = length (filter (\<lambda>c. c = CHR '' '') (board s))"
    using i e by (intro filter_update_cleared) (simp_all add: PlayerMark_occupied)
  then show ?thesis
    by (simp add: empty_squares_def ttt_MakeMove_def)
qed

lemma legal_position_count:
  "legal_position s \<Longrightarrow> turnsTaken s + int (empty_squares s) = 9"
  using sum_length_filter_compl [of "\<lambda>c. c \<noteq> CHR '' ''" "board s"]
  by (simp add: legal_position_def empty_squares_def)

lemma full_board_over:
  "legal_position s \<Longrightarrow> empty_squares s = 0 \<Longrightarrow> ttt_GameIsOver s"
  using legal_position_count [of s] by (simp add: ttt_GameIsOver_def)

lemma empty_squares_le: "legal_position s \<Longrightarrow> empty_squares s \<le> 9"
  using length_filter_le [of "\<lambda>c. c = CHR '' ''" "board s"]
  by (simp add: legal_position_def empty_squares_def)

lemma ttt_fields:
  "GenerateMoveList TicTacToe = ttt_GenerateMoveList"
  "MakeMove TicTacToe = ttt_MakeMove"
  "RetractMove TicTacToe = ttt_RetractMove"
  "GameIsOver TicTacToe = ttt_GameIsOver"
  "EvaluateStaticPosition TicTacToe = ttt_EvaluateStaticPosition"
  by (simp_all add: TicTacToe_def)

lemma ttt_children:
  assumes "legal_position s" and "empty_squares s = Suc e"
  shows "\<forall>m\<in>set (GenerateMoveList TicTacToe s).
           RetractMove TicTacToe (MakeMove TicTacToe s m) m = s \<and>
           legal_position (MakeMove TicTacToe s m) \<and>
           empty_squares (MakeMove TicTacToe s m) = e"
  using assms ttt_MakeMove_empty_squares [OF assms(1)]
  by (auto simp: ttt_fields ttt_roundtrip ttt_MakeMove_legal)

lemma ttt_EvaluatePosition_fuel:
  "legal_position s \<Longrightarrow> empty_squares s = e \<Longrightarrow>
   EvaluatePosition_fuel (Suc e) TicTacToe s d = Some (EvaluatePosition TicTacToe s d)"
proof (induction e arbitrary: s d)
  case 0
  then have "GameIsOver TicTacToe s" by (simp add: ttt_fields full_board_over)
  then show ?case by (simp add: EvaluatePosition_static)
next
  case (Suc e)
  show ?case
  proof (cases "GameIsOver TicTacToe s \<or> MAX_DEPTH \<le> d")
    case True
    then show ?thesis by (simp add: EvaluatePosition_static)
  next
    case False
    have ch: "\<forall>m\<in>set (GenerateMoveList TicTacToe s).
                RetractMove TicTacToe (MakeMove TicTacToe s m) m = s \<and>
                EvaluatePosition_fuel (Suc e) TicTacToe (MakeMove TicTacToe s m) (d + 1)
                  = Some (EvaluatePosition TicTacToe (MakeMove TicTacToe s m) (d + 1))"
      using ttt_children [OF Suc.prems] Suc.IH by simp
    have "FindBestMove_loop_fuel (Suc e) TicTacToe (GenerateMoveList TicTacToe s) s d None
            (WINNING_POSITION + 1)
          = Some (FindBestMove_loop TicTacToe (GenerateMoveList TicTacToe s) s d None
            (WINNING_POSITION + 1))"
      using ch by (intro loop_fuel_eq) simp_all
    then show ?thesis
      using False
      by (simp add: EvaluatePosition_search FindBestMove_fuel.simps FindBestMove.simps Let_def)
  qed
qed

lemma ttt_depth_independent:
  "legal_position s \<Longrightarrow> empty_squares s = e \<Longrightarrow>
   d + int e \<le> MAX_DEPTH \<Longrightarrow> d' + int e \<le> MAX_DEPTH \<Longrightarrow>
   EvaluatePosition TicTacToe s d = EvaluatePosition TicTacToe s d'"
proof (induction e arbitrary: s d d')
  case 0
  then have "GameIsOver TicTacToe s" by (simp add: ttt_fields full_board_over)
  then show ?case by (simp add: EvaluatePosition_static)
next
  case (Suc e)
  show ?case
  proof (cases "GameIsOver TicTacToe s")
    case True
    then show ?thesis by (simp add: EvaluatePosition_static)
  next
    case False
    have d: "d < MAX_DEPTH" "d' < MAX_DEPTH" using Suc.prems by simp_all
    have ch: "\<forall>m\<in>set (GenerateMoveList TicTacToe s).
                RetractMove TicTacToe (MakeMove TicTacToe s m) m = s \<and>
                EvaluatePosition TicTacToe (MakeMove TicTacToe s m) (d + 1)
                  = EvaluatePosition TicTacToe (MakeMove TicTacToe s m) (d' + 1)"
    proof
      fix m assume m: "m \<in> set (GenerateMoveList TicTacToe s)"
      have c: "RetractMove TicTacToe (MakeMove TicTacToe s m) m = s"
        "legal_position (MakeMove TicTacToe s m)"
        "empty_squares (MakeMove TicTacToe s m) = e"
        using ttt_children [OF Suc.prems(1,2)] m by simp_all
      have "EvaluatePosition TicTacToe (MakeMove TicTacToe s m) (d + 1)
            = EvaluatePosition TicTacToe (MakeMove TicTacToe s m) (d' + 1)"
        using c(2,3) Suc.prems(3,4) by (intro Suc.IH) simp_all
      with c(1) show "RetractMove TicTacToe (MakeMove TicTacToe s m) m = s \<and>
                EvaluatePosition TicTacToe (MakeMove TicTacToe s m) (d + 1)
                  = EvaluatePosition TicTacToe (MakeMove TicTacToe s m) (d' + 1)" by simp
    qed
    have "FindBestMove_loop TicTacToe (GenerateMoveList TicTacToe s) s d None (WINNING_POSITION + 1)
          = FindBestMove_loop TicTacToe (GenerateMoveList TicTacToe s) s d' None (WINNING_POSITION + 1)"
      using ch by (intro loop_depth_eq) simp_all
    then show ?thesis
      using False d by (simp add: EvaluatePosition_search FindBestMove.simps Let_def)
  qed
qed

lemma ttt_FindBestMove_fuel:
  assumes "legal_position s"
  shows "FindBestMove_fuel (empty_squares s) TicTacToe s d = Some (FindBestMove TicTacToe s d)"
proof (cases "empty_squares s")
  case 0
  have full: "\<forall>c\<in>set (board s). c \<noteq> CHR '' ''"
    using 0 by (simp add: empty_squares_def filter_empty_conv)
  have "m \<notin> set (ttt_GenerateMoveList s)" for m
  proof
    assume "m \<in> set (ttt_GenerateMoveList s)"
    then have i: "nat (m - 1) < length (board s)" and e: "board s ! nat (m - 1) = CHR '' ''"
      using assms by (auto simp: ttt_move_in_list legal_position_def)
    from i have "board s ! nat (m - 1) \<in> set (board s)" by (rule nth_mem)
    with full e show False by simp
  qed
  then have "ttt_GenerateMoveList s = []"
    by (cases "ttt_GenerateMoveList s") auto
  then show ?thesis
    by (simp add: FindBestMove_fuel.simps FindBestMove.simps ttt_fields)
next
  case (Suc e)
  have "\<forall>m\<in>set (GenerateMoveList TicTacToe s).
          RetractMove TicTacToe (MakeMove TicTacToe s m) m = s \<and>
          EvaluatePosition_fuel (Suc e) TicTacToe (MakeMove TicTacToe s m) (d + 1)
            = Some (EvaluatePosition TicTacToe (MakeMove TicTacToe s m) (d + 1))"
    using ttt_children [OF assms Suc] ttt_EvaluatePosition_fuel by simp
  then have "FindBestMove_loop_fuel (Suc e) TicTacToe (GenerateMoveList TicTacToe s) s d None
            (WINNING_POSITION + 1)
          = Some (FindBestMove_loop TicTacToe (GenerateMoveList TicTacToe s) s d None
            (WINNING_POSITION + 1))"
    by (intro loop_fuel_eq) simp_all
  then show ?thesis
    using Suc by (simp add: FindBestMove_fuel.simps FindBestMove.simps Let_def)
qed

section \<open>Facts about the concrete positions\<close>

lemma Max_uminus_image:
  fixes C :: "int set"
  assumes "finite C" and "C \<noteq> {}"
  shows "Max (uminus ` C) = - Min C"
proof (rule Max_eqI)
  show "finite (uminus ` C)" using assms by simp
  show "y \<le> - Min C" if "y \<in> uminus ` C" for y
    using that assms by (auto intro: Min_le)
  show "- Min C \<in> uminus ` C"
    using Min_in [OF assms] by simp
qed

lemma S3_legal: "legal_position position_S3"
  by (simp add: legal_position_def position_S3_def)

lemma S3_moves: "GenerateMoveList TicTacToe position_S3 = [3, 6, 7, 8, 9]"
  by code_simp

lemma S3_not_over: "\<not> GameIsOver TicTacToe position_S3"
  by code_simp

lemma S5_moves: "GenerateMoveList TicTacToe position_S5 = []"
  by code_simp

lemma S5_legal: "legal_position position_S5"
  by (simp add: legal_position_def position_S5_def)

lemma S5_over: "GameIsOver TicTacToe position_S5"
  by code_simp

section \<open>The claims\<close>

text \<open>
  In the claims stated for any game, \<open>A\<close> is a record of game functions that meets
  \<open>adapter_contract\<close> on the positions \<open>legal\<close>, and a position of the game is a position
  \<open>P\<close> with \<open>legal P\<close>.  The concrete inputs are tic-tac-toe positions.
\<close>

text \<open>
  Claim C1.  On a position of the game that has a legal move, \<open>FindBestMove\<close> returns a
  move of the generated list; the rating it stores is the maximum, over the generated
  moves, of the negated rating of the position reached (the rating from the point of view
  of the side to move); the returned move reaches that maximum, and it is the first move
  of the list that does.  This holds at every depth, and whether or not the position is
  terminal.
\<close>

theorem FindBestMove_best_move:
  assumes "adapter_contract A legal" and "legal P" and "GenerateMoveList A P \<noteq> []"
  shows "\<exists>move. fst (FindBestMove A P d) = Some move \<and>
           move \<in> set (GenerateMoveList A P) \<and>
           fst (snd (FindBestMove A P d)) =
             Max ((\<lambda>m. - fst (EvaluatePosition A (MakeMove A P m) (d + 1))) `
                   set (GenerateMoveList A P)) \<and>
           - fst (EvaluatePosition A (MakeMove A P move) (d + 1)) = fst (snd (FindBestMove A P d)) \<and>
           find (\<lambda>m. - fst (EvaluatePosition A (MakeMove A P m) (d + 1))
                        = fst (snd (FindBestMove A P d)))
             (GenerateMoveList A P) = Some move"
proof -
  define ms where "ms = GenerateMoveList A P"
  define C where "C = child_rating A P d ` set ms"
  have fin: "finite C" and ne: "C \<noteq> {}" using assms(3) by (simp_all add: C_def ms_def)
  have rating: "fst (snd (FindBestMove A P d)) = - Min C"
    using FindBestMove_found(1) [OF assms] by (simp add: C_def ms_def)
  have best: "fst (FindBestMove A P d) = find (\<lambda>m. child_rating A P d m = Min C) ms"
    using FindBestMove_found(2) [OF assms] by (simp add: C_def ms_def)
  have "Min C \<in> C" using fin ne by (rule Min_in)
  then have "\<exists>m\<in>set ms. child_rating A P d m = Min C" by (auto simp: C_def)
  then obtain move where found: "find (\<lambda>m. child_rating A P d m = Min C) ms = Some move"
    by (cases "find (\<lambda>m. child_rating A P d m = Min C) ms") (auto simp: find_None_iff)
  then have mem: "move \<in> set ms" and reach: "child_rating A P d move = Min C"
    by (auto simp: find_Some_iff)
  have "(\<lambda>m. - child_rating A P d m) ` set ms = uminus ` C"
    by (auto simp: C_def)
  then have mx: "Max ((\<lambda>m. - child_rating A P d m) ` set ms) = - Min C"
    using Max_uminus_image [OF fin ne] by simp
  have fnd: "find (\<lambda>m. - child_rating A P d m = - Min C) ms = Some move"
    using found by simp
  show ?thesis
    using best found mem rating mx reach fnd
    unfolding child_rating_def ms_def by auto
qed

theorem FindBestMove_best_move_witness:
  "adapter_contract TicTacToe legal_position \<and> legal_position position_S3 \<and>
   GenerateMoveList TicTacToe position_S3 \<noteq> [] \<and>
   (\<exists>move. fst (FindBestMove TicTacToe position_S3 0) = Some move \<and>
      move \<in> set (GenerateMoveList TicTacToe position_S3) \<and>
      fst (snd (FindBestMove TicTacToe position_S3 0)) =
        Max ((\<lambda>m. - fst (EvaluatePosition TicTacToe (MakeMove TicTacToe position_S3 m) (0 + 1))) `
              set (GenerateMoveList TicTacToe position_S3)) \<and>
      - fst (EvaluatePosition TicTacToe (MakeMove TicTacToe position_S3 move) (0 + 1))
        = fst (snd (FindBestMove TicTacToe position_S3 0)) \<and>
      find (\<lambda>m. - fst (EvaluatePosition TicTacToe (MakeMove TicTacToe position_S3 m) (0 + 1))
                   = fst (snd (FindBestMove TicTacToe position_S3 0)))
        (GenerateMoveList TicTacToe position_S3) = Some move)"
proof -
  have ne: "GenerateMoveList TicTacToe position_S3 \<noteq> []"
    by (simp add: S3_moves)
  from FindBestMove_best_move [OF TicTacToe_contract S3_legal ne, of 0]
  show ?thesis using TicTacToe_contract S3_legal ne by blast
qed

text \<open>
  Claim C2.  On a position of the game that is not over, at a depth below \<open>MAX_DEPTH\<close>,
  the rating returned by \<open>EvaluatePosition\<close> is the negation of the minimum, over the
  generated moves, of the rating \<open>EvaluatePosition\<close> returns one level deeper for the
  position the move leads to.
\<close>

theorem negamax_equation:
  assumes "adapter_contract A legal" and "legal P"
    and "\<not> GameIsOver A P" and "d < MAX_DEPTH"
  shows "fst (EvaluatePosition A P d) =
           - Min ((\<lambda>M. fst (EvaluatePosition A (MakeMove A P M) (d + 1))) `
                   set (GenerateMoveList A P))"
proof -
  have ne: "GenerateMoveList A P \<noteq> []"
    using assms(1-3) by (simp add: adapter_contract_def)
  have "fst (EvaluatePosition A P d) = fst (snd (FindBestMove A P d))"
    using assms(3,4) by (simp add: EvaluatePosition_search)
  then show ?thesis
    using FindBestMove_found(1) [OF assms(1,2) ne, of d] by (simp add: child_rating_def)
qed

theorem negamax_equation_witness:
  "adapter_contract TicTacToe legal_position \<and> legal_position position_S3 \<and>
   \<not> GameIsOver TicTacToe position_S3 \<and> 0 < MAX_DEPTH \<and>
   fst (EvaluatePosition TicTacToe position_S3 0) =
     - Min ((\<lambda>M. fst (EvaluatePosition TicTacToe (MakeMove TicTacToe position_S3 M) (0 + 1))) `
             set (GenerateMoveList TicTacToe position_S3))"
proof -
  have d: "0 < MAX_DEPTH" by (simp add: MAX_DEPTH_def)
  from negamax_equation [OF TicTacToe_contract S3_legal S3_not_over d]
  show ?thesis using TicTacToe_contract S3_legal S3_not_over d by blast
qed

text \<open>
  Claim C3.  \<open>EvaluatePosition\<close> returns the static evaluation of the position, and writes
  nothing, when the game is over or the depth has reached \<open>MAX_DEPTH\<close> = 10000; otherwise
  it returns the rating stored by \<open>FindBestMove\<close> on the same position and depth, without
  the move.  It returns the static evaluation within one activation of
  \<open>EvaluatePosition\<close>, no other one nested inside, exactly in the first case.
\<close>

theorem EvaluatePosition_cases:
  "EvaluatePosition A P d =
     (if GameIsOver A P \<or> MAX_DEPTH \<le> d then (EvaluateStaticPosition A P, [])
      else (fst (snd (FindBestMove A P d)), snd (snd (FindBestMove A P d)))) \<and>
   (EvaluatePosition_fuel 1 A P d = Some (EvaluateStaticPosition A P, [])
      \<longleftrightarrow> GameIsOver A P \<or> MAX_DEPTH \<le> d) \<and>
   MAX_DEPTH = 10000"
proof -
  have one: "EvaluatePosition_fuel 1 A P d = EvaluatePosition_fuel (Suc 0) A P d" by simp
  have "EvaluatePosition_fuel (Suc 0) A P d \<noteq> Some (EvaluateStaticPosition A P, [])"
    if "\<not> (GameIsOver A P \<or> MAX_DEPTH \<le> d)"
  proof (cases "GenerateMoveList A P")
    case Nil
    then show ?thesis
      using that by (simp add: FindBestMove_fuel.simps)
  next
    case (Cons m ms)
    then show ?thesis
      using that
      by (simp add: FindBestMove_fuel.simps LOSING_POSITION_def WINNING_POSITION_def)
  qed
  moreover have "EvaluatePosition_fuel (Suc 0) A P d = Some (EvaluateStaticPosition A P, [])"
    if "GameIsOver A P \<or> MAX_DEPTH \<le> d"
    using that by auto
  ultimately show ?thesis
    unfolding one by (auto simp: EvaluatePosition.simps Let_def MAX_DEPTH_def)
qed

theorem EvaluatePosition_cases_witness:
  "GameIsOver TicTacToe position_S5 \<and> \<not> GameIsOver TicTacToe position_S3 \<and>
   EvaluatePosition TicTacToe position_S5 0
     = (EvaluateStaticPosition TicTacToe position_S5, []) \<and>
   EvaluatePosition_fuel 1 TicTacToe position_S5 0
     = Some (EvaluateStaticPosition TicTacToe position_S5, []) \<and>
   EvaluatePosition TicTacToe position_S3 0
     = (fst (snd (FindBestMove TicTacToe position_S3 0)),
        snd (snd (FindBestMove TicTacToe position_S3 0))) \<and>
   EvaluatePosition_fuel 1 TicTacToe position_S3 0
     \<noteq> Some (EvaluateStaticPosition TicTacToe position_S3, [])"
proof -
  have d: "\<not> MAX_DEPTH \<le> 0" by (simp add: MAX_DEPTH_def)
  from EvaluatePosition_cases [of TicTacToe position_S5 0]
    EvaluatePosition_cases [of TicTacToe position_S3 0]
  show ?thesis using S5_over S3_not_over d by auto
qed

text \<open>
  Claim C4.  On every position of the game the rating returned by \<open>EvaluatePosition\<close>, at
  depth 0 and at every other depth, lies between \<open>LOSING_POSITION\<close> and
  \<open>WINNING_POSITION\<close>, where \<open>WINNING_POSITION\<close> is 1000, \<open>NEUTRAL_POSITION\<close> is 0 and
  \<open>LOSING_POSITION\<close> is \<open>- WINNING_POSITION\<close>.
\<close>

theorem rating_bounds:
  assumes "adapter_contract A legal" and "legal P"
  shows "LOSING_POSITION \<le> fst (EvaluatePosition A P 0) \<and>
         fst (EvaluatePosition A P 0) \<le> WINNING_POSITION \<and>
         LOSING_POSITION \<le> fst (EvaluatePosition A P d) \<and>
         fst (EvaluatePosition A P d) \<le> WINNING_POSITION \<and>
         WINNING_POSITION = 1000 \<and> NEUTRAL_POSITION = 0 \<and>
         LOSING_POSITION = - WINNING_POSITION"
  using EvaluatePosition_bounds [OF assms, of 0] EvaluatePosition_bounds [OF assms, of d]
  by (simp add: WINNING_POSITION_def NEUTRAL_POSITION_def LOSING_POSITION_def)

theorem rating_bounds_witness:
  "adapter_contract TicTacToe legal_position \<and> legal_position position_S3 \<and>
   LOSING_POSITION \<le> fst (EvaluatePosition TicTacToe position_S3 0) \<and>
   fst (EvaluatePosition TicTacToe position_S3 0) \<le> WINNING_POSITION \<and>
   LOSING_POSITION \<le> fst (EvaluatePosition TicTacToe position_S3 7) \<and>
   fst (EvaluatePosition TicTacToe position_S3 7) \<le> WINNING_POSITION \<and>
   WINNING_POSITION = 1000 \<and> NEUTRAL_POSITION = 0 \<and>
   LOSING_POSITION = - WINNING_POSITION"
proof -
  from rating_bounds [OF TicTacToe_contract S3_legal, of 7]
  show ?thesis using TicTacToe_contract S3_legal by blast
qed

text \<open>
  Claim C5.  On every position of the game, \<open>FindBestMove\<close>, whose loop stops as soon as
  the running minimum is \<open>LOSING_POSITION\<close>, returns the move, the rating and the output
  of the exhaustive search, whose loops visit every generated move.  The two searches
  differ in that loop condition and in nothing else.
\<close>

theorem early_exit_sound:
  assumes "adapter_contract A legal" and "legal P"
  shows "FindBestMove A P d = FindBestMove_exhaustive A P d"
  using assms by (rule FindBestMove_exhaustive_eq)

theorem early_exit_sound_witness:
  "adapter_contract TicTacToe legal_position \<and> legal_position position_S3 \<and>
   GenerateMoveList TicTacToe position_S3 \<noteq> [] \<and>
   FindBestMove TicTacToe position_S3 0 = FindBestMove_exhaustive TicTacToe position_S3 0"
proof -
  have ne: "GenerateMoveList TicTacToe position_S3 \<noteq> []"
    by (simp add: S3_moves)
  from early_exit_sound [OF TicTacToe_contract S3_legal, of 0]
  show ?thesis using TicTacToe_contract S3_legal ne by blast
qed

text \<open>
  Claim C6.  On the empty tic-tac-toe board with the computer to move, at depth 0,
  \<open>EvaluatePosition\<close> returns \<open>NEUTRAL_POSITION\<close> and writes nothing: with both sides
  playing their best moves the game is a draw.
\<close>

theorem empty_board_is_draw:
  "EvaluatePosition TicTacToe NewGame 0 = (NEUTRAL_POSITION, [])"
proof -
  have d: "0 + int 9 \<le> MAX_DEPTH" by (simp add: MAX_DEPTH_def)
  have "0 \<le> fst (EvaluatePosition TicTacToe NewGame 0)"
    using rating_certificates [OF TicTacToe_contract, of NewGame 9 0]
      NewGame_legal NewGame_ge0 d by blast
  moreover have "fst (EvaluatePosition TicTacToe NewGame 0) \<le> 0"
    using rating_certificates [OF TicTacToe_contract, of NewGame 9 0]
      NewGame_legal NewGame_le0 d by blast
  moreover have "snd (EvaluatePosition TicTacToe NewGame 0) = []"
    using TicTacToe_contract NewGame_legal by (rule EvaluatePosition_silent)
  ultimately show ?thesis
    by (simp add: NEUTRAL_POSITION_def prod_eq_iff)
qed

text \<open>
  Claim C7.  When the generated move list is empty, \<open>FindBestMove\<close> does not fail: it
  writes \<open>No moves available\<close>, skips the loop, returns \<open>bestMove\<close> as it was declared,
  uninitialised, and stores the rating \<open>- (WINNING_POSITION + 1)\<close>, that is -1001, which is
  below \<open>LOSING_POSITION\<close>.
\<close>

theorem no_moves_available:
  assumes "GenerateMoveList A P = []"
  shows "FindBestMove A P d = (None, - (WINNING_POSITION + 1), [''No moves available'']) \<and>
         - (WINNING_POSITION + 1) = - 1001 \<and>
         - (WINNING_POSITION + 1) < LOSING_POSITION"
  using assms
  by (simp add: FindBestMove.simps WINNING_POSITION_def LOSING_POSITION_def)

theorem no_moves_available_witness:
  "GenerateMoveList TicTacToe position_S5 = [] \<and>
   FindBestMove TicTacToe position_S5 0
     = (None, - (WINNING_POSITION + 1), [''No moves available'']) \<and>
   - (WINNING_POSITION + 1) = - 1001 \<and>
   - (WINNING_POSITION + 1) < LOSING_POSITION"
proof -
  from no_moves_available [OF S5_moves, of 0]
  show ?thesis using S5_moves by blast
qed

text \<open>
  Claim C8.  A call of \<open>FindBestMove\<close> or \<open>EvaluatePosition\<close> leaves the position of its
  caller as it was.  Both take the state by value.  The caller in the source is the loop
  of \<open>FindBestMove\<close>: after one iteration its state is \<open>RetractMove\<close> applied to the very
  state \<open>MakeMove\<close> produced, whatever the call of \<open>EvaluatePosition\<close> in between did to
  its own copy.  And the copy \<open>FindBestMove\<close> works on is back to the position received
  when the function returns, wherever \<open>RetractMove\<close> undoes \<open>MakeMove\<close> on the moves
  generated for that position.
\<close>

theorem position_unchanged:
  "(minRating \<noteq> LOSING_POSITION \<longrightarrow>
      fst (snd (snd (FindBestMove_loop A [move] P d bestMove minRating)))
        = RetractMove A (MakeMove A P move) move) \<and>
   ((\<forall>m\<in>set (GenerateMoveList A P). RetractMove A (MakeMove A P m) m = P) \<longrightarrow>
      fst (snd (snd (FindBestMove_loop A (GenerateMoveList A P) P d None (WINNING_POSITION + 1))))
        = P)"
  by (simp add: Let_def loop_state)

theorem position_unchanged_witness:
  "WINNING_POSITION + 1 \<noteq> LOSING_POSITION \<and>
   fst (snd (snd (FindBestMove_loop TicTacToe [3] position_S3 0 None (WINNING_POSITION + 1))))
     = RetractMove TicTacToe (MakeMove TicTacToe position_S3 3) 3 \<and>
   RetractMove TicTacToe (MakeMove TicTacToe position_S3 3) 3 = position_S3 \<and>
   RetractMove TicTacToe (MakeMove TicTacToe position_S3 6) 6 = position_S3 \<and>
   RetractMove TicTacToe (MakeMove TicTacToe position_S3 7) 7 = position_S3 \<and>
   RetractMove TicTacToe (MakeMove TicTacToe position_S3 8) 8 = position_S3 \<and>
   RetractMove TicTacToe (MakeMove TicTacToe position_S3 9) 9 = position_S3 \<and>
   fst (snd (snd (FindBestMove_loop TicTacToe (GenerateMoveList TicTacToe position_S3)
          position_S3 0 None (WINNING_POSITION + 1)))) = position_S3"
proof -
  have s: "WINNING_POSITION + 1 \<noteq> LOSING_POSITION"
    by (simp add: WINNING_POSITION_def LOSING_POSITION_def)
  have rt: "\<forall>m\<in>set (GenerateMoveList TicTacToe position_S3).
              RetractMove TicTacToe (MakeMove TicTacToe position_S3 m) m = position_S3"
    by (simp add: ttt_fields ttt_roundtrip)
  then have each: "RetractMove TicTacToe (MakeMove TicTacToe position_S3 3) 3 = position_S3"
    "RetractMove TicTacToe (MakeMove TicTacToe position_S3 6) 6 = position_S3"
    "RetractMove TicTacToe (MakeMove TicTacToe position_S3 7) 7 = position_S3"
    "RetractMove TicTacToe (MakeMove TicTacToe position_S3 8) 8 = position_S3"
    "RetractMove TicTacToe (MakeMove TicTacToe position_S3 9) 9 = position_S3"
    by (simp_all add: S3_moves)
  from position_unchanged [of "WINNING_POSITION + 1" TicTacToe 3 position_S3 0 None]
  show ?thesis using s rt each by blast
qed

text \<open>
  Claim C9, as amended.  On every legal tic-tac-toe position and at every non-negative
  depth, the search returns, and the activations of \<open>EvaluatePosition\<close> nested inside one
  another never exceed the number of empty squares plus one: a move fills a square, and
  the position with no empty square is over.  That number is at most 10, far below
  \<open>MAX_DEPTH\<close>.  The cap plays no part when the starting depth leaves room for the empty
  squares below \<open>MAX_DEPTH\<close>, as depth 0 does: the result is then the one found at depth 0.
  From a starting depth closer to \<open>MAX_DEPTH\<close> the cap can cut the search short, as the
  counterexample below shows.
\<close>

theorem tictactoe_search_terminates:
  assumes "legal_position P" and "0 \<le> d"
  shows "EvaluatePosition_fuel (empty_squares P + 1) TicTacToe P d
           = Some (EvaluatePosition TicTacToe P d) \<and>
         FindBestMove_fuel (empty_squares P) TicTacToe P d
           = Some (FindBestMove TicTacToe P d) \<and>
         empty_squares P + 1 \<le> 10 \<and> 10 < MAX_DEPTH \<and>
         (d + int (empty_squares P) \<le> MAX_DEPTH \<longrightarrow>
            EvaluatePosition TicTacToe P d = EvaluatePosition TicTacToe P 0)"
proof -
  have "EvaluatePosition_fuel (Suc (empty_squares P)) TicTacToe P d
          = Some (EvaluatePosition TicTacToe P d)"
    using assms(1) by (intro ttt_EvaluatePosition_fuel) simp_all
  moreover have "FindBestMove_fuel (empty_squares P) TicTacToe P d
          = Some (FindBestMove TicTacToe P d)"
    using assms(1) by (rule ttt_FindBestMove_fuel)
  moreover have "empty_squares P + 1 \<le> 10"
    using empty_squares_le [OF assms(1)] by simp
  moreover have "10 < MAX_DEPTH" by (simp add: MAX_DEPTH_def)
  moreover have "EvaluatePosition TicTacToe P d = EvaluatePosition TicTacToe P 0"
    if "d + int (empty_squares P) \<le> MAX_DEPTH"
  proof -
    have "0 + int (empty_squares P) \<le> MAX_DEPTH"
      using empty_squares_le [OF assms(1)] by (simp add: MAX_DEPTH_def)
    with that show ?thesis
      using assms(1) by (intro ttt_depth_independent [where e = "empty_squares P"]) simp_all
  qed
  ultimately show ?thesis by simp
qed

theorem tictactoe_search_terminates_witness:
  "legal_position NewGame \<and> (0::int) \<le> 0 \<and> empty_squares NewGame = 9 \<and>
   EvaluatePosition_fuel (empty_squares NewGame + 1) TicTacToe NewGame 0
     = Some (EvaluatePosition TicTacToe NewGame 0) \<and>
   FindBestMove_fuel (empty_squares NewGame) TicTacToe NewGame 0
     = Some (FindBestMove TicTacToe NewGame 0) \<and>
   0 + int (empty_squares NewGame) \<le> MAX_DEPTH"
proof -
  have e: "empty_squares NewGame = 9"
    by (simp add: empty_squares_def NewGame_def)
  have d: "0 + int (empty_squares NewGame) \<le> MAX_DEPTH"
    by (simp add: e MAX_DEPTH_def)
  have z: "(0::int) \<le> 0" by simp
  from tictactoe_search_terminates [OF NewGame_legal z]
  show ?thesis using NewGame_legal e d by blast
qed

text \<open>
  Claim C9 as it was stated says that the cap is never what stops the search, for every
  non-negative starting depth.  At depth 9999 it is: on the position with three threats
  the moves are rated at depth 10000, where \<open>EvaluatePosition\<close> returns the static rating of
  a position that is not over, and the search returns 0, where from depth 0 it returns
  \<open>LOSING_POSITION\<close>.
\<close>

theorem cap_stops_search_counterexample:
  "legal_position position_three_threats \<and> (0::int) \<le> 9999 \<and>
   \<not> GameIsOver TicTacToe position_three_threats \<and>
   fst (EvaluatePosition TicTacToe position_three_threats 0) = - 1000 \<and>
   fst (EvaluatePosition TicTacToe position_three_threats 9999) = 0 \<and>
   EvaluatePosition TicTacToe position_three_threats 9999
     \<noteq> EvaluatePosition TicTacToe position_three_threats 0 \<and>
   \<not> GameIsOver TicTacToe (MakeMove TicTacToe position_three_threats 2) \<and>
   MAX_DEPTH \<le> 9999 + 1 \<and>
   EvaluatePosition TicTacToe (MakeMove TicTacToe position_three_threats 2) (9999 + 1)
     = (EvaluateStaticPosition TicTacToe (MakeMove TicTacToe position_three_threats 2), [])"
proof -
  have legal: "legal_position position_three_threats"
    by (simp add: legal_position_def position_three_threats_def)
  have open_game: "\<not> GameIsOver TicTacToe position_three_threats"
    by code_simp
  have at_0: "EvaluatePosition TicTacToe position_three_threats 0 = (- 1000, [])"
    by code_simp
  have at_cap: "EvaluatePosition TicTacToe position_three_threats 9999 = (0, [])"
    by code_simp
  have child: "\<not> GameIsOver TicTacToe (MakeMove TicTacToe position_three_threats 2)"
    by code_simp
  have cap: "MAX_DEPTH \<le> 9999 + 1"
    by (simp add: MAX_DEPTH_def)
  have static: "EvaluatePosition TicTacToe (MakeMove TicTacToe position_three_threats 2) (9999 + 1)
     = (EvaluateStaticPosition TicTacToe (MakeMove TicTacToe position_three_threats 2), [])"
    using cap by (simp add: EvaluatePosition_static)
  show ?thesis
    using legal open_game child cap static by (simp add: at_0 at_cap)
qed

text \<open>
  Claim C10.  On a position of the game whose generated move list is not empty, the rating
  \<open>EvaluatePosition\<close> returns for the first move is at most \<open>WINNING_POSITION\<close>, which is
  below the initial value \<open>WINNING_POSITION + 1\<close> of \<open>minRating\<close>; so the first iteration of
  the loop assigns the first move to \<open>bestMove\<close>, and \<open>FindBestMove\<close> returns an
  initialised \<open>bestMove\<close>.
\<close>

theorem bestMove_initialised:
  assumes "adapter_contract A legal" and "legal P"
    and "GenerateMoveList A P = move # rest"
  shows "fst (EvaluatePosition A (MakeMove A P move) (d + 1)) \<le> WINNING_POSITION \<and>
         WINNING_POSITION < WINNING_POSITION + 1 \<and>
         fst (FindBestMove_loop A [move] P d None (WINNING_POSITION + 1)) = Some move \<and>
         fst (FindBestMove A P d) \<noteq> None"
proof -
  have m: "move \<in> set (GenerateMoveList A P)" using assms(3) by simp
  then have leg: "legal (MakeMove A P move)"
    using assms(1,2) by (simp add: adapter_contract_def)
  have up: "fst (EvaluatePosition A (MakeMove A P move) (d + 1)) \<le> WINNING_POSITION"
    using EvaluatePosition_bounds [OF assms(1) leg] by simp
  have s: "WINNING_POSITION + 1 \<noteq> LOSING_POSITION"
    by (simp add: WINNING_POSITION_def LOSING_POSITION_def)
  have first: "fst (FindBestMove_loop A [move] P d None (WINNING_POSITION + 1)) = Some move"
    using up s by (simp add: Let_def)
  have ne: "GenerateMoveList A P \<noteq> []" using assms(3) by simp
  define C where "C = child_rating A P d ` set (GenerateMoveList A P)"
  have "Min C \<in> C" unfolding C_def using ne by (intro Min_in) simp_all
  then have "\<exists>m\<in>set (GenerateMoveList A P). child_rating A P d m = Min C"
    by (auto simp: C_def)
  then have "find (\<lambda>m. child_rating A P d m = Min C) (GenerateMoveList A P) \<noteq> None"
    by (auto simp: find_None_iff)
  then have "fst (FindBestMove A P d) \<noteq> None"
    using FindBestMove_found(2) [OF assms(1,2) ne, of d] by (simp add: C_def)
  with up first show ?thesis by simp
qed

theorem bestMove_initialised_witness:
  "adapter_contract TicTacToe legal_position \<and> legal_position position_S3 \<and>
   GenerateMoveList TicTacToe position_S3 = 3 # [6, 7, 8, 9] \<and>
   fst (EvaluatePosition TicTacToe (MakeMove TicTacToe position_S3 3) (0 + 1))
     \<le> WINNING_POSITION \<and>
   fst (FindBestMove_loop TicTacToe [3] position_S3 0 None (WINNING_POSITION + 1)) = Some 3 \<and>
   fst (FindBestMove TicTacToe position_S3 0) \<noteq> None"
proof -
  from bestMove_initialised [OF TicTacToe_contract S3_legal S3_moves, of 0]
  show ?thesis using TicTacToe_contract S3_legal S3_moves by blast
qed

end
